theory Spec2Isabelle
  imports Main
begin

section \<open>JavaScript values\<close>

text \<open>
  A JavaScript string is a sequence of UTF-16 code units. The date pattern of
  \<open>downloadPhoto\<close> names the en dash (U+2013), which is no 8-bit character, so strings
  are lists of code units; \<open>js\<close> reads an ASCII literal as such a list.
\<close>

type_synonym jsstring = "nat list"

abbreviation js :: "string \<Rightarrow> jsstring" where
  "js s \<equiv> map of_char s"

text \<open>
  The numbers of the program are years and months: an integer or \<open>NaN\<close> (what
  \<open>getFullYear\<close> gives on an invalid date). A field that may be \<open>undefined\<close> is a
  \<open>jsnum option\<close>.
\<close>

datatype jsnum = NaN | Num int

text \<open>\<open>v || d\<close> for a number \<open>v\<close> that may be undefined: undefined, NaN and 0 are falsy.\<close>

fun or_default :: "jsnum option \<Rightarrow> int \<Rightarrow> jsnum" where
  "or_default None d = Num d"
| "or_default (Some NaN) d = Num d"
| "or_default (Some (Num n)) d = (if n = 0 then Num d else Num n)"

text \<open>A string is truthy when it is defined and not empty.\<close>

fun truthy :: "jsstring option \<Rightarrow> bool" where
  "truthy None = False"
| "truthy (Some s) = (s \<noteq> [])"

function show_nat :: "nat \<Rightarrow> jsstring" where
  "show_nat n = (if n < 10 then [48 + n] else show_nat (n div 10) @ [48 + n mod 10])"
  by pat_completeness auto
termination
  by (relation "measure id") auto

declare show_nat.simps [simp del]

definition show_int :: "int \<Rightarrow> jsstring" where
  "show_int i = (if i < 0 then 45 # show_nat (nat (- i)) else show_nat (nat i))"

text \<open>The template literal \<open>`${n}`\<close> of a number.\<close>

fun template :: "jsnum \<Rightarrow> jsstring" where
  "template NaN = js ''NaN''"
| "template (Num i) = show_int i"

text \<open>
  \<open>new Date(text)\<close>: the parse of a free-form date text is the runtime's own; the model
  takes it as a parameter (\<open>parse_date\<close> below). A date is invalid, or has a local year
  and a month index from 0.
\<close>

datatype jsdate = InvalidDate | LocalDate int int

fun getFullYear :: "jsdate \<Rightarrow> jsnum" where
  "getFullYear InvalidDate = NaN"
| "getFullYear (LocalDate y m) = Num y"

fun getMonth :: "jsdate \<Rightarrow> jsnum" where
  "getMonth InvalidDate = NaN"
| "getMonth (LocalDate y m) = Num m"

fun plus1 :: "jsnum \<Rightarrow> jsnum" where
  "plus1 NaN = NaN"
| "plus1 (Num m) = Num (m + 1)"

section \<open>URL canonicalization\<close>

fun strip_prefix :: "'a list \<Rightarrow> 'a list \<Rightarrow> 'a list option" where
  "strip_prefix [] s = Some s"
| "strip_prefix (p # ps) [] = None"
| "strip_prefix (p # ps) (c # cs) = (if p = c then strip_prefix ps cs else None)"

definition is_digit :: "nat \<Rightarrow> bool" where
  "is_digit c = (48 \<le> c \<and> c \<le> 57)"

text \<open>
  A match of \<open>/\/u\/\d+\//\<close> at the head of the string, giving what follows the match.
  The greedy \<open>\d+\<close> needs no backtracking: after a shorter run of digits comes a digit,
  never the closing slash.
\<close>

definition account_segment :: "jsstring \<Rightarrow> jsstring option" where
  "account_segment s =
     (case strip_prefix (js ''/u/'') s of
        None \<Rightarrow> None
      | Some r \<Rightarrow>
          (if takeWhile is_digit r = [] then None
           else (case dropWhile is_digit r of
                   [] \<Rightarrow> None
                 | c # rest \<Rightarrow> if c = 47 then Some rest else None)))"

text \<open>\<open>clean\<close> (lines 39-41), \<open>link.replace(/\/u\/\d+\//, '/')\<close>: the leftmost match, once.\<close>

fun clean :: "jsstring \<Rightarrow> jsstring" where
  "clean [] = []"
| "clean (c # cs) =
     (case account_segment (c # cs) of
        Some rest \<Rightarrow> 47 # rest
      | None \<Rightarrow> c # clean cs)"

section \<open>The date caption of the page markup\<close>

text \<open>
  The pattern is \<open>aria-label="(?:Photo|Video) ((?:[D-]) ([^"D-]+))+"\<close>, where
  \<open>D\<close> stands for the en dash, code unit 8211. After the kind and a space come one
  or more segments (a dash, a space, a text with no quote and no dash), then the closing
  quote. A text is followed by a quote or by a dash, so the greedy match is the only one.
\<close>

definition is_dash :: "nat \<Rightarrow> bool" where
  "is_dash c = (c = 8211 \<or> c = 45)"

definition is_text :: "nat \<Rightarrow> bool" where
  "is_text c = (c \<noteq> 34 \<and> c \<noteq> 8211 \<and> c \<noteq> 45)"

text \<open>
  \<open>scan_text acc s\<close>: inside the text of a segment, \<open>acc\<close> read so far. The result is the
  text of the last segment, the second capture group.
\<close>

fun scan_text :: "jsstring \<Rightarrow> jsstring \<Rightarrow> jsstring option" where
  "scan_text acc [] = None"
| "scan_text acc (c # cs) =
     (if is_text c then scan_text (acc @ [c]) cs
      else if acc = [] then None
      else if c = 34 then Some acc
      else (case cs of
              [] \<Rightarrow> None
            | sp # cs' \<Rightarrow> if sp = 32 then scan_text [] cs' else None))"

definition segments :: "jsstring \<Rightarrow> jsstring option" where
  "segments s =
     (case s of
        d # sp # rest \<Rightarrow> if is_dash d \<and> sp = 32 then scan_text [] rest else None
      | _ \<Rightarrow> None)"

definition kind :: "jsstring \<Rightarrow> jsstring option" where
  "kind s =
     (case strip_prefix (js ''Photo'') s of
        Some r \<Rightarrow> Some r
      | None \<Rightarrow> strip_prefix (js ''Video'') s)"

text \<open>A match of the pattern at the head of the string.\<close>

definition match_here :: "jsstring \<Rightarrow> jsstring option" where
  "match_here s =
     (case strip_prefix (js ''aria-label=\"'') s of
        None \<Rightarrow> None
      | Some r \<Rightarrow>
          (case kind r of
             None \<Rightarrow> None
           | Some r' \<Rightarrow>
               (case r' of
                  [] \<Rightarrow> None
                | sp # r'' \<Rightarrow> if sp = 32 then segments r'' else None)))"

text \<open>\<open>regex.exec(html)\<close> followed by \<open>match?.pop()\<close>: the last group of the leftmost match.\<close>

fun regex_exec :: "jsstring \<Rightarrow> jsstring option" where
  "regex_exec [] = None"
| "regex_exec (c # cs) =
     (case match_here (c # cs) of
        Some t \<Rightarrow> Some t
      | None \<Rightarrow> regex_exec cs)"

section \<open>The collaborators: browser, library site, metadata tool, file system\<close>

text \<open>
  \<open>DateTimeOriginal\<close> as the metadata tool returns it: absent, or a value whose
  \<open>year\<close> and \<open>month\<close> fields are read (each may be undefined at run time, the cast
  to \<open>ExifDateTime\<close> being unchecked).
\<close>

datatype exif_datetime = ExifDateTime (exif_year: "jsnum option") (exif_month: "jsnum option")

text \<open>
  What the browser hands over for one download: \<open>download.path()\<close> (null when the file
  could not be retrieved), \<open>download.suggestedFilename()\<close>, the bytes it stored at that
  path, and the \<open>DateTimeOriginal\<close> the metadata tool reads from them.
\<close>

record download_info =
  tempPath :: "jsstring option"
  suggestedFilename :: jsstring
  content :: jsstring
  dateTimeOriginal :: "exif_datetime option"

text \<open>
  Everything the program does not compute itself, as functions of the page location:
  \<^item> \<open>path_join\<close>: \<open>path.join\<close> of the segments;
  \<^item> \<open>url_valid\<close>: whether \<open>new URL(s)\<close> accepts the string;
  \<^item> \<open>landing u\<close>: \<open>page.url()\<close> after \<open>page.goto(u)\<close>;
  \<^item> \<open>active_href\<close>: the \<open>href\<close> of the active element after the ArrowRight key;
  \<^item> \<open>previousArrows u\<close>: for each element of class \<open>SxgK2b OQEhnd\<close> on the page, in
    document order, whether its \<open>offsetParent\<close> is not null;
  \<^item> \<open>after_click u\<close>: the location at which \<open>waitForURL\<close> resolves after the click on
    page \<open>u\<close>, \<open>None\<close> when the location never changes;
  \<^item> \<open>download u\<close>: the download that Shift+D starts on page \<open>u\<close>;
  \<^item> \<open>page_html u\<close>: the body of \<open>page.request.get(u)\<close>;
  \<^item> \<open>parse_date\<close>: \<open>new Date(text)\<close>;
  \<^item> \<open>exif_stamp bytes date\<close>: the bytes of a file after the metadata tool has written
    the date into it, \<open>None\<close> when the tool rejects the file and the write throws.
\<close>

record env =
  path_join :: "jsstring list \<Rightarrow> jsstring"
  url_valid :: "jsstring \<Rightarrow> bool"
  landing :: "jsstring \<Rightarrow> jsstring"
  active_href :: "jsstring option"
  previousArrows :: "jsstring \<Rightarrow> bool list"
  after_click :: "jsstring \<Rightarrow> jsstring option"
  download :: "jsstring \<Rightarrow> download_info"
  page_html :: "jsstring \<Rightarrow> jsstring"
  parse_date :: "jsstring \<Rightarrow> jsdate"
  exif_stamp :: "jsstring \<Rightarrow> jsdate \<Rightarrow> jsstring option"

text \<open>The file system holds files by path; directories are implicit.\<close>

type_synonym filesystem = "jsstring \<rightharpoonup> jsstring"

datatype error = FileNotFound | EmptyFile | DestinationExists | InvalidURL | ExifWriteFailed

text \<open>
  \<open>moveFile(source, destination, {overwrite})\<close> of the file-system library: it refuses
  an existing destination unless \<open>overwrite\<close> is set, and otherwise renames the source.
\<close>

definition moveFile :: "jsstring \<Rightarrow> jsstring \<Rightarrow> bool \<Rightarrow> filesystem \<Rightarrow> error + filesystem" where
  "moveFile source destination overwrite fs =
     (if \<not> overwrite \<and> fs destination \<noteq> None then Inl DestinationExists
      else (case fs source of
              None \<Rightarrow> Inl FileNotFound
            | Some bytes \<Rightarrow> Inr ((fs(source := None))(destination \<mapsto> bytes))))"

text \<open>
  \<open>exiftool.write(path, {DateTimeOriginal: ExifDateTime.fromMillis(date.getTime())})\<close>
  (line 254). An invalid date gives no tag to write and the call throws. Otherwise the
  tool rewrites the file and keeps the bytes it had as \<open><path>_original\<close>, unless such
  a backup is there already.
\<close>

definition exiftoolWrite :: "env \<Rightarrow> jsstring \<Rightarrow> jsdate \<Rightarrow> filesystem \<Rightarrow> error + filesystem" where
  "exiftoolWrite e path date fs =
     (case date of
        InvalidDate \<Rightarrow> Inl ExifWriteFailed
      | LocalDate y m \<Rightarrow>
          (case fs path of
             None \<Rightarrow> Inl FileNotFound
           | Some bytes \<Rightarrow>
               (case exif_stamp e bytes date of
                  None \<Rightarrow> Inl ExifWriteFailed
                | Some stamped \<Rightarrow>
                    Inr (if fs (path @ js ''_original'') = None
                         then (fs(path @ js ''_original'' \<mapsto> bytes))(path \<mapsto> stamped)
                         else fs(path \<mapsto> stamped)))))"

section \<open>The state of a run\<close>

text \<open>The actions of a run that the outside can see, in the order they happen.\<close>

datatype event =
    Saved jsstring
  | Launch
  | Goto jsstring
  | Downloaded jsstring
  | HtmlGet jsstring
  | ExifWrite jsstring jsdate
  | Moved jsstring jsstring
  | MoveFailed jsstring jsstring
  | Click jsstring nat
  | BrowserClose
  | ExiftoolEnd

record world =
  files :: filesystem
  trace :: "event list"
  location :: jsstring

text \<open>
  How a run ends: \<open>start\<close> returns (exit code 0), \<open>process.exit(code)\<close>, an exception
  nobody catches, or a wait that never resolves.
\<close>

datatype halt = Finished | ProcessExit nat | Unhandled error | Stalled

definition emit :: "event list \<Rightarrow> world \<Rightarrow> world" where
  "emit es w = w\<lparr>trace := trace w @ es\<rparr>"

text \<open>
  The metadata writes among the actions of the date resolution, carried out on the
  files in their order; the first one that throws ends them.
\<close>

fun exiftoolWrites :: "env \<Rightarrow> event list \<Rightarrow> filesystem \<Rightarrow> error + filesystem" where
  "exiftoolWrites e [] fs = Inr fs"
| "exiftoolWrites e (ExifWrite path date # es) fs =
     (case exiftoolWrite e path date fs of
        Inl err \<Rightarrow> Inl err
      | Inr fs' \<Rightarrow> exiftoolWrites e es fs')"
| "exiftoolWrites e (x # es) fs = exiftoolWrites e es fs"

section \<open>The checkpoint store\<close>

text \<open>
  \<open>getProgress\<close> (lines 15-19) and \<open>saveProgress\<close> (lines 21-24) on the file
  \<open>.lastdone\<close> of the photo directory. Reading a missing file throws; so does the empty
  content.
\<close>

definition lastdone :: "env \<Rightarrow> jsstring \<Rightarrow> jsstring" where
  "lastdone e dir = path_join e [dir, js ''.lastdone'']"

definition getProgress :: "env \<Rightarrow> jsstring \<Rightarrow> world \<Rightarrow> error + jsstring" where
  "getProgress e downloadPath w =
     (case files w (lastdone e downloadPath) of
        None \<Rightarrow> Inl FileNotFound
      | Some lastDone \<Rightarrow> if lastDone = [] then Inl EmptyFile else Inr lastDone)"

definition saveProgress :: "env \<Rightarrow> jsstring \<Rightarrow> jsstring \<Rightarrow> world \<Rightarrow> world" where
  "saveProgress e dir url w =
     emit [Saved url] (w\<lparr>files := (files w)(lastdone e dir \<mapsto> url)\<rparr>)"

section \<open>Downloading one photo\<close>

text \<open>Lines 231-232: \<open>dateTimeOriginal?.year || 1970\<close> and \<open>dateTimeOriginal?.month || 1\<close>.\<close>

definition metadataDate :: "exif_datetime option \<Rightarrow> jsnum \<times> jsnum" where
  "metadataDate dto =
     (or_default (Option.bind dto exif_year) 1970, or_default (Option.bind dto exif_month) 1)"

text \<open>
  Lines 228-259. The date of the asset and the actions taken to find it: the metadata date, unless it is
  year 1970 and month 1; then the page is fetched and the caption, when the pattern
  matches, is parsed as a date. With \<open>writeScrapedExif\<close> the date is then written to the
  file: \<open>ExifWrite\<close> is the call of \<open>exiftool.write\<close>, which \<open>downloadPhoto\<close> carries
  out on the files (\<open>exiftoolWrites\<close>) and which may throw.
\<close>

definition captureDate ::
  "env \<Rightarrow> jsstring \<Rightarrow> jsstring \<Rightarrow> bool \<Rightarrow> exif_datetime option \<Rightarrow> (jsnum \<times> jsnum) \<times> event list" where
  "captureDate e url tmp writeExif dto =
     (let (year, month) = metadataDate dto in
      if year = Num 1970 \<and> month = Num 1 then
        (case regex_exec (page_html e url) of
           Some lastMatch \<Rightarrow>
             (let date = parse_date e lastMatch in
              ((getFullYear date, plus1 (getMonth date)),
               HtmlGet url # (if writeExif then [ExifWrite tmp date] else [])))
         | None \<Rightarrow> ((year, month), [HtmlGet url]))
      else ((year, month), []))"

text \<open>Lines 261-263: the destination, flat or under year and month.\<close>

definition destDir :: "env \<Rightarrow> jsstring \<Rightarrow> bool \<Rightarrow> jsnum \<times> jsnum \<Rightarrow> jsstring \<Rightarrow> jsstring" where
  "destDir e photoDir flat ym name =
     (if flat then path_join e [photoDir, name]
      else path_join e [photoDir, template (fst ym), template (snd ym), name])"

text \<open>
  \<open>downloadPhoto(page, {photoDirectory, overwrite, writeScrapedExif,
  flatDirectoryStructure})\<close> (lines 203-271) on the page the browser shows. The browser
  stores the download at its temporary path. A missing download path ends the process
  (lines 223-226); a metadata write that throws (line 254) is caught nowhere and ends
  the run before the move; a move that fails is caught and logged, and the function
  returns (lines 265-270).
\<close>

definition downloadPhoto ::
  "env \<Rightarrow> jsstring \<Rightarrow> bool \<Rightarrow> bool \<Rightarrow> bool \<Rightarrow> world \<Rightarrow> (halt \<times> world) + world" where
  "downloadPhoto e photoDir overwrite writeExif flat w =
     (let url = location w;
          d = download e url;
          w1 = emit [Downloaded url] w
      in if \<not> truthy (tempPath d) then Inl (ProcessExit 1, w1)
         else
             (let tmp = the (tempPath d);
                  w2 = w1\<lparr>files := (files w1)(tmp \<mapsto> content d)\<rparr>;
                  (ym, evs) = captureDate e url tmp writeExif (dateTimeOriginal d);
                  w3 = emit evs w2
              in case exiftoolWrites e evs (files w3) of
                   Inl err \<Rightarrow> Inl (Unhandled err, w3)
                 | Inr written \<Rightarrow>
                     (let w4 = w3\<lparr>files := written\<rparr>;
                          dest = destDir e photoDir flat ym (suggestedFilename d)
                      in case moveFile tmp dest overwrite (files w4) of
                           Inr fs \<Rightarrow> Inr (emit [Moved tmp dest] (w4\<lparr>files := fs\<rparr>))
                         | Inl err \<Rightarrow> Inr (emit [MoveFailed tmp dest] w4))))"

section \<open>The backup run\<close>

record config =
  headless :: bool
  photoDirectory :: jsstring
  sessionDirectory :: jsstring
  initialPhotoUrl :: "jsstring option"
  writeScrapedExif :: bool
  flatDirectoryStructure :: bool

definition mainGooglePhotosUrl :: jsstring where
  "mainGooglePhotosUrl = js ''https://photos.google.com/''"

definition cleanup :: "world \<Rightarrow> world" where
  "cleanup w = emit [BrowserClose, ExiftoolEnd] w"

text \<open>
  The script evaluated in the page (lines 149-164), given the visibility of the elements
  of the class: \<open>None\<close> when it returns false without a click, \<open>Some i\<close> when it clicks
  element \<open>i\<close> and returns true. The click is on \<open>elements[0]\<close>.
\<close>

definition advanceToPrevious :: "bool list \<Rightarrow> nat option" where
  "advanceToPrevious elements =
     (let isVisible = list_ex (\<lambda>visible. visible) elements
      in if \<not> isVisible then None else Some 0)"

text \<open>
  The \<open>while (true)\<close> loop (lines 134-187). The fuel bounds the number of iterations:
  \<open>None\<close> is a run that is still going after that many. The call of \<open>downloadPhoto\<close>
  in the loop passes the photo directory and \<open>writeScrapedExif\<close> only, so \<open>overwrite\<close>
  and \<open>flatDirectoryStructure\<close> take their default, false.
\<close>

fun backupLoop ::
  "nat \<Rightarrow> env \<Rightarrow> config \<Rightarrow> jsstring \<Rightarrow> world \<Rightarrow> ((halt \<times> world) + world) option" where
  "backupLoop fuel e cfg latestPhoto w =
     (let currentUrl = location w in
      if clean currentUrl = clean latestPhoto then Some (Inr w)
      else (case fuel of
              0 \<Rightarrow> None
            | Suc k \<Rightarrow>
                (case advanceToPrevious (previousArrows e currentUrl) of
                   None \<Rightarrow> Some (Inl (ProcessExit 1, w))
                 | Some i \<Rightarrow>
                     (let w1 = emit [Click currentUrl i] w in
                      case after_click e currentUrl of
                        None \<Rightarrow> Some (Inl (Stalled, w1))
                      | Some u \<Rightarrow>
                          (case downloadPhoto e (photoDirectory cfg) False (writeScrapedExif cfg)
                                  False (w1\<lparr>location := u\<rparr>) of
                             Inl hw \<Rightarrow> Some (Inl hw)
                           | Inr w2 \<Rightarrow>
                               backupLoop k e cfg latestPhoto
                                 (saveProgress e (photoDirectory cfg) (location w2) w2))))))"

declare backupLoop.simps [simp del]

text \<open>Lines 60-73. The start link: the checkpoint, or the seed when there is none.\<close>

definition loadOrSeed :: "env \<Rightarrow> config \<Rightarrow> world \<Rightarrow> (halt \<times> world) + (jsstring \<times> world)" where
  "loadOrSeed e cfg w =
     (case getProgress e (photoDirectory cfg) w of
        Inr lastDone \<Rightarrow> Inr (lastDone, w)
      | Inl err \<Rightarrow>
          (if truthy (initialPhotoUrl cfg)
           then Inr (the (initialPhotoUrl cfg),
                     saveProgress e (photoDirectory cfg) (the (initialPhotoUrl cfg)) w)
           else Inl (ProcessExit 1, w)))"

text \<open>
  \<open>start\<close> (lines 43-189) from a file system: the result is how the run ends and the
  state it ends in, or \<open>None\<close> when the loop is still going after \<open>fuel\<close> iterations.
\<close>

definition start :: "nat \<Rightarrow> env \<Rightarrow> config \<Rightarrow> filesystem \<Rightarrow> (halt \<times> world) option" where
  "start fuel e cfg fs =
     (case loadOrSeed e cfg \<lparr>files = fs, trace = [], location = []\<rparr> of
        Inl hw \<Rightarrow> Some hw
      | Inr (startLink, w0) \<Rightarrow>
          if \<not> url_valid e startLink then Some (Unhandled InvalidURL, w0)
          else
            (let w1 = (emit [Launch, Goto mainGooglePhotosUrl] w0)
                        \<lparr>location := landing e mainGooglePhotosUrl\<rparr>;
                 pageUrl = location w1
             in if pageUrl \<noteq> mainGooglePhotosUrl then Some (ProcessExit 1, cleanup w1)
                else if \<not> truthy (active_href e) then Some (ProcessExit 1, cleanup w1)
                else
                  (let latestPhoto = the (active_href e);
                       w2 = (emit [Goto (clean startLink)] w1)
                              \<lparr>location := landing e (clean startLink)\<rparr>
                   in case downloadPhoto e (photoDirectory cfg) True (writeScrapedExif cfg)
                             (flatDirectoryStructure cfg) w2 of
                        Inl hw \<Rightarrow> Some hw
                      | Inr w3 \<Rightarrow>
                          (case backupLoop fuel e cfg latestPhoto w3 of
                             None \<Rightarrow> None
                           | Some (Inl hw) \<Rightarrow> Some hw
                           | Some (Inr w4) \<Rightarrow> Some (Finished, cleanup w4)))))"

section \<open>A small library to run the program on\<close>

text \<open>
  Three photos, oldest first: A and B carry the same file name and the same embedded
  date, C has no embedded date and a caption in its markup. Every page shows one visible
  arrow; the click leads from A to B and from B to C.
\<close>

fun join_slash :: "jsstring list \<Rightarrow> jsstring" where
  "join_slash [] = js ''.''"
| "join_slash [s] = s"
| "join_slash (s # ss) = s @ 47 # join_slash ss"

definition photoA :: jsstring where
  "photoA = js ''https://photos.google.com/photo/A''"

definition photoB :: jsstring where
  "photoB = js ''https://photos.google.com/photo/B''"

definition photoC :: jsstring where
  "photoC = js ''https://photos.google.com/photo/C''"

definition photoC_u0 :: jsstring where
  "photoC_u0 = js ''https://photos.google.com/u/0/photo/C''"

definition captionC :: jsstring where
  "captionC = js ''<a aria-label=\"Photo - Jan 5, 2020\">''"

definition march2021 :: "exif_datetime option" where
  "march2021 = Some (ExifDateTime (Some (Num 2021)) (Some (Num 3)))"

definition demo_download :: "jsstring \<Rightarrow> download_info" where
  "demo_download u =
     (if u = photoA then
        \<lparr>tempPath = Some (js ''/tmp/a''), suggestedFilename = js ''IMG_1.jpg'',
         content = js ''aaa'', dateTimeOriginal = march2021\<rparr>
      else if u = photoB then
        \<lparr>tempPath = Some (js ''/tmp/b''), suggestedFilename = js ''IMG_1.jpg'',
         content = js ''bbb'', dateTimeOriginal = march2021\<rparr>
      else
        \<lparr>tempPath = Some (js ''/tmp/c''), suggestedFilename = js ''IMG_2.jpg'',
         content = js ''ccc'', dateTimeOriginal = None\<rparr>)"

definition demo_parse :: "jsstring \<Rightarrow> jsdate" where
  "demo_parse s =
     (if s = js ''Jan 5, 2020'' then LocalDate 2020 0
      else if s = js ''Feb 7, 2019'' then LocalDate 2019 1
      else InvalidDate)"

definition demo_env :: env where
  "demo_env =
     \<lparr>path_join = join_slash,
      url_valid = (\<lambda>s. True),
      landing = (\<lambda>u. u),
      active_href = Some photoC_u0,
      previousArrows = (\<lambda>u. [True]),
      after_click = (\<lambda>u. if u = photoA then Some photoB
                         else if u = photoB then Some photoC else None),
      download = demo_download,
      page_html = (\<lambda>u. if u = photoC then captionC else []),
      parse_date = demo_parse,
      exif_stamp = (\<lambda>bytes date. Some (bytes @ js ''+date''))\<rparr>"

definition demo_config :: config where
  "demo_config =
     \<lparr>headless = True, photoDirectory = js ''/p'', sessionDirectory = js ''/s'',
      initialPhotoUrl = None, writeScrapedExif = False, flatDirectoryStructure = False\<rparr>"

text \<open>A photo directory whose checkpoint names the given location.\<close>

definition checkpointed :: "jsstring \<Rightarrow> filesystem" where
  "checkpointed u = [js ''/p/.lastdone'' \<mapsto> u]"

definition run_halt :: "(halt \<times> world) option \<Rightarrow> halt option" where
  "run_halt r = map_option fst r"

definition run_trace :: "(halt \<times> world) option \<Rightarrow> event list" where
  "run_trace r = (case r of None \<Rightarrow> [] | Some (h, w) \<Rightarrow> trace w)"

definition run_files :: "(halt \<times> world) option \<Rightarrow> filesystem" where
  "run_files r = (case r of None \<Rightarrow> Map.empty | Some (h, w) \<Rightarrow> files w)"

section \<open>Reading a trace\<close>

fun downloads :: "event list \<Rightarrow> jsstring list" where
  "downloads [] = []"
| "downloads (Downloaded u # es) = u # downloads es"
| "downloads (x # es) = downloads es"

fun clicks :: "event list \<Rightarrow> jsstring list" where
  "clicks [] = []"
| "clicks (Click u i # es) = u # clicks es"
| "clicks (x # es) = clicks es"

fun saves :: "event list \<Rightarrow> jsstring list" where
  "saves [] = []"
| "saves (Saved u # es) = u # saves es"
| "saves (x # es) = saves es"


text \<open>
  The shape of the events of the loop: iterations of a click, the download of the photo
  at \<open>u\<close>, the fetches of the date resolution, one move (done or failed) and the
  checkpoint write of \<open>u\<close>; the last iteration may stop after the click or after the
  download, never between the move and the checkpoint write.
\<close>

datatype phase = Idle | Clicked | Resolving jsstring | Attempted jsstring

fun iterations :: "phase \<Rightarrow> event list \<Rightarrow> bool" where
  "iterations Idle [] = True"
| "iterations Idle (Click c i # es) = iterations Clicked es"
| "iterations Clicked [] = True"
| "iterations Clicked (Downloaded u # es) = iterations (Resolving u) es"
| "iterations (Resolving u) [] = True"
| "iterations (Resolving u) (HtmlGet v # es) = (v = u \<and> iterations (Resolving u) es)"
| "iterations (Resolving u) (ExifWrite t d # es) = iterations (Resolving u) es"
| "iterations (Resolving u) (Moved s d # es) = iterations (Attempted u) es"
| "iterations (Resolving u) (MoveFailed s d # es) = iterations (Attempted u) es"
| "iterations (Attempted u) (Saved v # es) = (v = u \<and> iterations Idle es)"
| "iterations ph es = False"


text \<open>The destination that \<open>downloadPhoto\<close> computes for the photo of the current page.\<close>

definition target :: "env \<Rightarrow> jsstring \<Rightarrow> bool \<Rightarrow> bool \<Rightarrow> world \<Rightarrow> jsstring" where
  "target e photoDir writeExif flat w =
     (let d = download e (location w)
      in destDir e photoDir flat
           (fst (captureDate e (location w) (the (tempPath d)) writeExif (dateTimeOriginal d)))
           (suggestedFilename d))"

text \<open>
  The files at the moment \<open>downloadPhoto\<close> tries the move: the download stored at its
  temporary path and the scraped date, if any, written into it.
\<close>

definition staged :: "env \<Rightarrow> bool \<Rightarrow> world \<Rightarrow> error + filesystem" where
  "staged e writeExif w =
     (let d = download e (location w);
          tmp = the (tempPath d)
      in exiftoolWrites e
           (snd (captureDate e (location w) tmp writeExif (dateTimeOriginal d)))
           ((files w)(tmp \<mapsto> content d)))"

text \<open>No match of the caption pattern begins inside \<open>pre\<close> when \<open>rest\<close> follows it.\<close>

fun unmatched_prefix :: "jsstring \<Rightarrow> jsstring \<Rightarrow> bool" where
  "unmatched_prefix [] rest = True"
| "unmatched_prefix (c # pre) rest =
     (match_here (c # pre @ rest) = None \<and> unmatched_prefix pre rest)"

section \<open>Further pages and libraries to run the program on\<close>

text \<open>A markup with two captions, and the caption of the specification alone.\<close>

definition captionJan :: jsstring where
  "captionJan = js ''aria-label=\"Photo - Jan 5, 2020\"''"

definition captionTwo :: jsstring where
  "captionTwo = js ''<a aria-label=\"Video - Feb 7, 2019\"><a '' @ captionJan @ js ''>''"

text \<open>The library where no page shows a visible arrow, and the one where no download succeeds.\<close>

definition no_arrow_env :: env where
  "no_arrow_env = demo_env\<lparr>previousArrows := (\<lambda>u. [False])\<rparr>"

definition no_path_env :: env where
  "no_path_env = demo_env\<lparr>download := (\<lambda>u. (demo_download u)\<lparr>tempPath := None\<rparr>)\<rparr>"

text \<open>The library whose every page carries two captions, and a run with a seed.\<close>

definition two_caption_env :: env where
  "two_caption_env = demo_env\<lparr>page_html := (\<lambda>u. captionTwo)\<rparr>"


text \<open>
  A run that writes scraped dates; the library where the caption of C is no date; the
  photo directory of a second run at C, with the photo of C in place.
\<close>

definition scraping_config :: config where
  "scraping_config = demo_config\<lparr>writeScrapedExif := True\<rparr>"

definition bad_caption_env :: env where
  "bad_caption_env =
     demo_env\<lparr>page_html := (\<lambda>u. js ''<a aria-label=\"Photo - Landscape\">'')\<rparr>"

definition rerun_files :: filesystem where
  "rerun_files =
     [js ''/p/.lastdone'' \<mapsto> photoC, js ''/p/2020/1/IMG_2.jpg'' \<mapsto> js ''old'']"

definition at_photoC :: world where
  "at_photoC = \<lparr>files = rerun_files, trace = [], location = photoC\<rparr>"

text \<open>The state of the demo run after photo A is placed and the page of B has loaded.\<close>

definition at_photoB :: world where
  "at_photoB =
     \<lparr>files = [js ''/p/.lastdone'' \<mapsto> photoA, js ''/p/2021/3/IMG_1.jpg'' \<mapsto> js ''aaa''],
      trace = [], location = photoB\<rparr>"

section \<open>Properties of the canonicalization\<close>

lemma strip_prefix_iff: "strip_prefix p s = Some r \<longleftrightarrow> s = p @ r"
  by (induction p s rule: strip_prefix.induct) auto

lemma strip_prefix_None_iff: "strip_prefix p s = None \<longleftrightarrow> (\<forall>r. s \<noteq> p @ r)"
  by (induction p s rule: strip_prefix.induct) auto

lemma takeWhile_digit_slash: "takeWhile is_digit (p @ 47 # t) = takeWhile is_digit p"
  by (induction p) (simp_all add: is_digit_def)

lemma dropWhile_digit_slash: "dropWhile is_digit (p @ 47 # t) = dropWhile is_digit p @ 47 # t"
  by (induction p) (simp_all add: is_digit_def)

lemma account_segment_shorter:
  assumes "account_segment s = Some r"
  shows "length r + 4 \<le> length s"
proof -
  from assms obtain r0 where s: "s = js ''/u/'' @ r0"
    and t: "takeWhile is_digit r0 \<noteq> []" and d: "dropWhile is_digit r0 = 47 # r"
    by (auto simp: account_segment_def strip_prefix_iff split: if_splits option.splits list.splits)
  have "length r0 = length (takeWhile is_digit r0) + length (dropWhile is_digit r0)"
    by (metis length_append takeWhile_dropWhile_id)
  with t d have "length r + 2 \<le> length r0"
    by (cases "takeWhile is_digit r0") simp_all
  with s show ?thesis by simp
qed

lemma clean_fixed_no_segment:
  assumes "clean (c # cs) = c # cs"
  shows "account_segment (c # cs) = None \<and> clean cs = cs"
proof (cases "account_segment (c # cs)")
  case None
  with assms show ?thesis by simp
next
  case (Some r)
  from account_segment_shorter[OF Some] assms Some show ?thesis
    by simp
qed

lemma account_segment_tail:
  assumes "3 \<le> length pre"
  shows "(account_segment (pre @ 47 # t1) = None) = (account_segment (pre @ 47 # t2) = None)"
proof -
  from assms obtain a b c p where pre: "pre = a # b # c # p"
    by (cases pre; cases "tl pre"; cases "tl (tl pre)") auto
  have tail: "((case xs @ 47 # t1 of [] \<Rightarrow> None | c # rest \<Rightarrow> if c = 47 then Some rest else None) = None)
      = ((case xs @ 47 # t2 of [] \<Rightarrow> None | c # rest \<Rightarrow> if c = 47 then Some rest else None) = None)"
    for xs :: jsstring
    by (cases xs) simp_all
  show ?thesis
    by (simp add: pre account_segment_def takeWhile_digit_slash dropWhile_digit_slash tail)
qed

lemma account_segment_short:
  assumes "pre \<noteq> []" "length pre < 3"
  shows "account_segment (pre @ js ''/u/'' @ t) = None"
proof -
  from assms consider a where "pre = [a]" | a b where "pre = [a, b]"
    by (cases pre; cases "tl pre"; cases "tl (tl pre)") auto
  then show ?thesis
    by cases (simp_all add: account_segment_def is_digit_def)
qed

lemma account_segment_digits:
  assumes "ds \<noteq> []" "list_all is_digit ds"
  shows "account_segment (js ''/u/'' @ ds @ 47 # post) = Some post"
proof -
  from assms(2) have ds: "takeWhile is_digit ds = ds" "dropWhile is_digit ds = []"
    by (simp_all add: list_all_iff)
  have "account_segment (js ''/u/'' @ ds @ 47 # post)
      = (if takeWhile is_digit ds = [] then None
         else (case dropWhile is_digit ds @ 47 # post of
                 [] \<Rightarrow> None
               | c # rest \<Rightarrow> if c = 47 then Some rest else None))"
    by (simp add: account_segment_def takeWhile_digit_slash dropWhile_digit_slash)
  also have "\<dots> = Some post"
    unfolding ds using assms(1) by simp
  finally show ?thesis .
qed

lemma clean_inserted_segment:
  assumes "ds \<noteq> []" "list_all is_digit ds"
    and "clean (pre @ 47 # post) = pre @ 47 # post"
  shows "clean (pre @ js ''/u/'' @ ds @ 47 # post) = pre @ 47 # post"
  using assms(3)
proof (induction pre)
  case Nil
  from account_segment_digits[OF assms(1,2), of post] show ?case by simp
next
  case (Cons c pre)
  from Cons.prems have fixed: "clean (c # (pre @ 47 # post)) = c # (pre @ 47 # post)" by simp
  note f = clean_fixed_no_segment[OF fixed]
  have none: "account_segment ((c # pre) @ js ''/u/'' @ ds @ 47 # post) = None"
  proof (cases "3 \<le> length (c # pre)")
    case True
    from account_segment_tail[OF True, of "117 # 47 # ds @ 47 # post" post] f
    show ?thesis by simp
  next
    case False
    then show ?thesis by (intro account_segment_short) simp_all
  qed
  from none Cons.IH f show ?case by simp
qed

text \<open>
  C9. Canonicalization removes the account-index segment. For a location
  \<open>pre/post\<close> that holds no such segment (cleaning leaves it as it is), the location
  \<open>pre/u/<digits>/post\<close> cleans to the same string; the witness is
  \<open>https://host/u/3/photo/abc\<close> against \<open>https://host/photo/abc\<close>.
\<close>

theorem clean_removes_account_segment:
  assumes "ds \<noteq> []" and "list_all is_digit ds"
    and "clean (pre @ js ''/'' @ post) = pre @ js ''/'' @ post"
  shows "clean (pre @ js ''/u/'' @ ds @ js ''/'' @ post) = clean (pre @ js ''/'' @ post)"
  using clean_inserted_segment[of ds pre post] assms by simp

theorem clean_removes_account_segment_witness:
  "js ''3'' \<noteq> [] \<and> list_all is_digit (js ''3'')
   \<and> clean (js ''https://host/photo/abc'') = js ''https://host/photo/abc''
   \<and> clean (js ''https://host/u/3/photo/abc'') = clean (js ''https://host/photo/abc'')"
proof -
  have fixed: "clean (js ''https://host'' @ js ''/'' @ js ''photo/abc'') = js ''https://host'' @ js ''/'' @ js ''photo/abc''"
    by (simp add: account_segment_def)
  have digits: "js ''3'' \<noteq> []" "list_all is_digit (js ''3'')"
    by (simp_all add: is_digit_def)
  from clean_removes_account_segment[OF digits fixed] fixed digits show ?thesis
    by simp
qed


section \<open>The events of a download and of the loop\<close>

lemma captureDate_events:
  "snd (captureDate e u tmp wx dto) = []
   \<or> snd (captureDate e u tmp wx dto) = [HtmlGet u]
   \<or> (\<exists>d. snd (captureDate e u tmp wx dto) = [HtmlGet u, ExifWrite tmp d])"
  by (simp add: captureDate_def Let_def split: prod.splits option.splits)


lemma captureDate_no_write:
  "snd (captureDate e u tmp False dto) = [] \<or> snd (captureDate e u tmp False dto) = [HtmlGet u]"
  by (simp add: captureDate_def Let_def split: prod.splits option.splits)

lemma exiftoolWrite_frame:
  assumes "exiftoolWrite e path date fs = Inr fs2"
  shows "fs path \<noteq> None \<and> fs2 path \<noteq> None
       \<and> (\<forall>p. p \<noteq> path \<and> p \<noteq> path @ js ''_original'' \<longrightarrow> fs2 p = fs p)
       \<and> (\<forall>p. fs p \<noteq> None \<longrightarrow> fs2 p \<noteq> None)"
  using assms
  by (auto simp: exiftoolWrite_def split: jsdate.splits option.splits if_splits)

lemma exiftoolWrites_frame:
  assumes "exiftoolWrites e (snd (captureDate e u tmp wx dto)) fs = Inr fs2"
  shows "\<forall>p. p \<noteq> tmp \<and> p \<noteq> tmp @ js ''_original'' \<longrightarrow> fs2 p = fs p"
    and "\<forall>p. fs p \<noteq> None \<longrightarrow> fs2 p \<noteq> None"
    and "\<not> wx \<longrightarrow> fs2 = fs"
proof -
  consider "snd (captureDate e u tmp wx dto) = []"
    | "snd (captureDate e u tmp wx dto) = [HtmlGet u]"
    | d where "snd (captureDate e u tmp wx dto) = [HtmlGet u, ExifWrite tmp d]"
    using captureDate_events[of e u tmp wx dto] by blast
  then have "(\<forall>p. p \<noteq> tmp \<and> p \<noteq> tmp @ js ''_original'' \<longrightarrow> fs2 p = fs p)
      \<and> (\<forall>p. fs p \<noteq> None \<longrightarrow> fs2 p \<noteq> None)"
  proof cases
    case 1
    with assms show ?thesis by simp
  next
    case 2
    with assms show ?thesis by simp
  next
    case 3
    with assms have "exiftoolWrite e tmp d fs = Inr fs2"
      by (simp split: sum.splits)
    from exiftoolWrite_frame[OF this] show ?thesis by blast
  qed
  then show "\<forall>p. p \<noteq> tmp \<and> p \<noteq> tmp @ js ''_original'' \<longrightarrow> fs2 p = fs p"
    and "\<forall>p. fs p \<noteq> None \<longrightarrow> fs2 p \<noteq> None"
    by blast+
  show "\<not> wx \<longrightarrow> fs2 = fs"
  proof
    assume "\<not> wx"
    with captureDate_no_write[of e u tmp dto] assms show "fs2 = fs"
      by auto
  qed
qed


lemma downloadPhoto_returns:
  assumes "downloadPhoto e dir ov wx flat w = Inr w'"
  shows "location w' = location w \<and>
    (\<exists>tmp mv. (mv = Moved tmp (target e dir wx flat w) \<or> mv = MoveFailed tmp (target e dir wx flat w)) \<and>
       trace w' = trace w @ Downloaded (location w) #
         snd (captureDate e (location w) tmp wx (dateTimeOriginal (download e (location w)))) @ [mv])"
  using assms
  by (auto simp: downloadPhoto_def target_def Let_def emit_def split: if_splits prod.splits sum.splits)

lemma iterations_append_idle:
  "iterations ph (es @ [Saved u]) \<Longrightarrow> iterations Idle es' \<Longrightarrow> iterations ph (es @ Saved u # es')"
  by (induction ph es rule: iterations.induct) auto


section \<open>Evaluating the demo library\<close>

lemmas model_defs = start_def loadOrSeed_def getProgress_def saveProgress_def lastdone_def
  downloadPhoto_def captureDate_def metadataDate_def destDir_def moveFile_def cleanup_def emit_def
  advanceToPrevious_def show_int_def exiftoolWrite_def Let_def

lemmas demo_defs = demo_env_def demo_config_def demo_download_def demo_parse_def checkpointed_def
  march2021_def run_halt_def run_trace_def run_files_def no_arrow_env_def no_path_env_def
  at_photoB_def at_photoC_def rerun_files_def scraping_config_def bad_caption_env_def

lemma clean_photos:
  "clean photoA = photoA" "clean photoB = photoB" "clean photoC = photoC"
  "clean photoC_u0 = photoC"
  by (simp_all add: photoA_def photoB_def photoC_def photoC_u0_def account_segment_def is_digit_def)

lemma distinct_photos:
  "photoA \<noteq> photoB" "photoA \<noteq> photoC" "photoB \<noteq> photoC"
  "photoB \<noteq> photoA" "photoC \<noteq> photoA" "photoC \<noteq> photoB"
  "photoA \<noteq> []" "photoB \<noteq> []" "photoC \<noteq> []" "photoC_u0 \<noteq> []"
  by (simp_all add: photoA_def photoB_def photoC_def photoC_u0_def)

lemma regex_captionC: "regex_exec captionC = Some (js ''Jan 5, 2020'')"
  by (simp add: captionC_def match_here_def kind_def segments_def is_dash_def is_text_def)

lemmas demo_simps = model_defs demo_defs clean_photos distinct_photos regex_captionC
  backupLoop.simps show_nat.simps

section \<open>The checkpoint and the placement\<close>




text \<open>
  C2, as the code has it. Without overwrite and with the destination occupied, the one
  move fails: the files stay as they are when the move is tried (the download at its
  temporary path, with the scraped date written and the backup \<open><tmp>_original\<close> beside
  it when \<open>writeScrapedExif\<close> made the tool write), so every other path, the destination
  among them, holds what it held before and no file of another name appears; the trace
  ends with the failed move, and \<open>downloadPhoto\<close> returns.
\<close>

theorem occupied_destination_is_logged:
  assumes "d = download e (location w)" and "tempPath d = Some tmp" and "tmp \<noteq> []"
    and "dest = target e dir wx flat w"
    and "files w dest \<noteq> None"
    and "staged e wx w = Inr ready"
  shows "downloadPhoto e dir False wx flat w =
           Inr (emit (Downloaded (location w)
                        # snd (captureDate e (location w) tmp wx (dateTimeOriginal d))
                        @ [MoveFailed tmp dest])
                  (w\<lparr>files := ready\<rparr>))
       \<and> (\<forall>p. p \<noteq> tmp \<and> p \<noteq> tmp @ js ''_original'' \<longrightarrow> ready p = files w p)
       \<and> ready tmp \<noteq> None
       \<and> (\<not> wx \<longrightarrow> ready = (files w)(tmp \<mapsto> content d))"
proof -
  let ?evs = "snd (captureDate e (location w) tmp wx (dateTimeOriginal d))"
  from assms have wr: "exiftoolWrites e ?evs ((files w)(tmp \<mapsto> content d)) = Inr ready"
    by (simp add: staged_def Let_def)
  note frame = exiftoolWrites_frame[OF wr]
  from assms(5) have "((files w)(tmp \<mapsto> content d)) dest \<noteq> None" by simp
  with frame(2) have occupied: "ready dest \<noteq> None" by blast
  from frame(1) have others: "\<forall>p. p \<noteq> tmp \<and> p \<noteq> tmp @ js ''_original'' \<longrightarrow> ready p = files w p"
    by simp
  have "((files w)(tmp \<mapsto> content d)) tmp \<noteq> None" by simp
  with frame(2) have staying: "ready tmp \<noteq> None" by blast
  from assms(1-4) wr occupied
  have "downloadPhoto e dir False wx flat w =
           Inr (emit (Downloaded (location w) # ?evs @ [MoveFailed tmp dest]) (w\<lparr>files := ready\<rparr>))"
    by (auto simp: downloadPhoto_def target_def moveFile_def emit_def Let_def case_prod_beta)
  with others staying frame(3) show ?thesis by blast
qed

theorem occupied_destination_is_logged_witness:
  "tempPath (download demo_env (location at_photoC)) = Some (js ''/tmp/c'')
   \<and> js ''/tmp/c'' \<noteq> []
   \<and> target demo_env (js ''/p'') True False at_photoC = js ''/p/2020/1/IMG_2.jpg''
   \<and> files at_photoC (js ''/p/2020/1/IMG_2.jpg'') = Some (js ''old'')
   \<and> (\<exists>ready. staged demo_env True at_photoC = Inr ready
        \<and> ready (js ''/tmp/c'') = Some (js ''ccc+date'')
        \<and> ready (js ''/tmp/c_original'') = Some (js ''ccc'')
        \<and> ready (js ''/p/2020/1/IMG_2.jpg'') = Some (js ''old'')
        \<and> downloadPhoto demo_env (js ''/p'') False True False at_photoC =
            Inr (emit [Downloaded photoC, HtmlGet photoC,
                       ExifWrite (js ''/tmp/c'') (LocalDate 2020 0),
                       MoveFailed (js ''/tmp/c'') (js ''/p/2020/1/IMG_2.jpg'')]
                   (at_photoC\<lparr>files := ready\<rparr>)))"
proof -
  have a: "tempPath (download demo_env (location at_photoC)) = Some (js ''/tmp/c'')"
    by (simp add: demo_defs distinct_photos)
  have b: "js ''/tmp/c'' \<noteq> []" by simp
  have c: "js ''/p/2020/1/IMG_2.jpg'' = target demo_env (js ''/p'') True False at_photoC"
    by (simp add: target_def demo_simps)
  have d: "files at_photoC (js ''/p/2020/1/IMG_2.jpg'') \<noteq> None"
    by (simp add: demo_defs)
  have d': "files at_photoC (js ''/p/2020/1/IMG_2.jpg'') = Some (js ''old'')"
    by (simp add: demo_defs)
  have "\<exists>ready. staged demo_env True at_photoC = Inr ready
        \<and> ready (js ''/tmp/c'') = Some (js ''ccc+date'')
        \<and> ready (js ''/tmp/c_original'') = Some (js ''ccc'')
        \<and> ready (js ''/p/2020/1/IMG_2.jpg'') = Some (js ''old'')"
    by (simp add: staged_def demo_simps)
  then obtain ready where e: "staged demo_env True at_photoC = Inr ready"
    and f: "ready (js ''/tmp/c'') = Some (js ''ccc+date'')"
      "ready (js ''/tmp/c_original'') = Some (js ''ccc'')"
      "ready (js ''/p/2020/1/IMG_2.jpg'') = Some (js ''old'')"
    by blast
  have g: "location at_photoC = photoC" "dateTimeOriginal (download demo_env photoC) = None"
    by (simp_all add: demo_defs distinct_photos)
  have h: "snd (captureDate demo_env photoC (js ''/tmp/c'') True None) =
      [HtmlGet photoC, ExifWrite (js ''/tmp/c'') (LocalDate 2020 0)]"
    by (simp add: demo_simps)
  from occupied_destination_is_logged[OF refl a b c d e]
  have "downloadPhoto demo_env (js ''/p'') False True False at_photoC =
            Inr (emit [Downloaded photoC, HtmlGet photoC,
                       ExifWrite (js ''/tmp/c'') (LocalDate 2020 0),
                       MoveFailed (js ''/tmp/c'') (js ''/p/2020/1/IMG_2.jpg'')]
                   (at_photoC\<lparr>files := ready\<rparr>))"
    unfolding g h by simp
  with a b c[symmetric] d' e f show ?thesis by blast
qed

text \<open>
  C2, as stated, fails: after the collision of photo B no renamed file exists and no
  second move was tried; the bytes of B are at the temporary path only.
\<close>

theorem collision_leaves_incoming_unplaced:
  "downloadPhoto demo_env (js ''/p'') False False False at_photoB =
     Inr \<lparr>files = [js ''/p/.lastdone'' \<mapsto> photoA,
                   js ''/p/2021/3/IMG_1.jpg'' \<mapsto> js ''aaa'',
                   js ''/tmp/b'' \<mapsto> js ''bbb''],
          trace = [Downloaded photoB, MoveFailed (js ''/tmp/b'') (js ''/p/2021/3/IMG_1.jpg'')],
          location = photoB\<rparr>"
  by (simp add: demo_simps)


section \<open>A run from an unchanged checkpoint\<close>

lemma backupLoop_at_latest:
  "clean (location w) = clean latestPhoto \<Longrightarrow> backupLoop fuel e cfg latestPhoto w = Some (Inr w)"
  by (simp add: backupLoop.simps Let_def)

lemma downloads_append [simp]: "downloads (xs @ ys) = downloads xs @ downloads ys"
  by (induction xs rule: downloads.induct) simp_all

lemma clicks_append [simp]: "clicks (xs @ ys) = clicks xs @ clicks ys"
  by (induction xs rule: clicks.induct) simp_all

lemma saves_append [simp]: "saves (xs @ ys) = saves xs @ saves ys"
  by (induction xs rule: saves.induct) simp_all

lemma captureDate_quiet:
  "downloads (snd (captureDate e u tmp wx dto)) = []"
  "clicks (snd (captureDate e u tmp wx dto)) = []"
  "saves (snd (captureDate e u tmp wx dto)) = []"
  using captureDate_events[of e u tmp wx dto] by auto

lemma downloadPhoto_counts:
  assumes "downloadPhoto e dir ov wx flat w = Inr w'"
  shows "downloads (trace w') = downloads (trace w) @ [location w]"
    and "clicks (trace w') = clicks (trace w)"
    and "saves (trace w') = saves (trace w)"
  using downloadPhoto_returns[OF assms] by (auto simp: captureDate_quiet)

text \<open>
  C3, as the code has it. With the checkpoint present, the session signed in, the page
  reached from the checkpoint canonically equal to the latest photo, a download with a
  path and no throw of the metadata write, the run ends normally for every fuel and
  its result is fixed: one download, of that page; one move, done with overwrite, so
  that the destination holds the downloaded bytes whatever it held before; no click and
  no checkpoint write; then the browser and the metadata tool are closed.
\<close>

theorem unchanged_checkpoint_downloads_once:
  assumes "fs (lastdone e (photoDirectory cfg)) = Some lastDone" and "lastDone \<noteq> []"
    and "url_valid e lastDone"
    and "landing e mainGooglePhotosUrl = mainGooglePhotosUrl"
    and "active_href e = Some latestPhoto" and "latestPhoto \<noteq> []"
    and "u = landing e (clean lastDone)"
    and "clean u = clean latestPhoto"
    and "d = download e u" and "tempPath d = Some tmp" and "tmp \<noteq> []"
    and "evs = snd (captureDate e u tmp (writeScrapedExif cfg) (dateTimeOriginal d))"
    and "dest = destDir e (photoDirectory cfg) (flatDirectoryStructure cfg)
                  (fst (captureDate e u tmp (writeScrapedExif cfg) (dateTimeOriginal d)))
                  (suggestedFilename d)"
    and "exiftoolWrites e evs (fs(tmp \<mapsto> content d)) = Inr ready"
  shows "ready tmp \<noteq> None
       \<and> start fuel e cfg fs =
           Some (Finished,
                 \<lparr>files = (ready(tmp := None))(dest \<mapsto> the (ready tmp)),
                  trace = [Launch, Goto mainGooglePhotosUrl, Goto (clean lastDone), Downloaded u]
                          @ evs @ [Moved tmp dest, BrowserClose, ExiftoolEnd],
                  location = u\<rparr>)
       \<and> (\<not> writeScrapedExif cfg \<longrightarrow> ready = fs(tmp \<mapsto> content d))
       \<and> downloads (run_trace (start fuel e cfg fs)) = [u]
       \<and> clicks (run_trace (start fuel e cfg fs)) = []
       \<and> saves (run_trace (start fuel e cfg fs)) = []"
proof -
  let ?w2 = "\<lparr>files = fs, trace = [Launch, Goto mainGooglePhotosUrl, Goto (clean lastDone)],
              location = u\<rparr>"
  let ?w3 = "\<lparr>files = (ready(tmp := None))(dest \<mapsto> the (ready tmp)),
              trace = [Launch, Goto mainGooglePhotosUrl, Goto (clean lastDone), Downloaded u]
                      @ evs @ [Moved tmp dest],
              location = u\<rparr>"
  from assms(12,14)
  have wr: "exiftoolWrites e (snd (captureDate e u tmp (writeScrapedExif cfg) (dateTimeOriginal d)))
              (fs(tmp \<mapsto> content d)) = Inr ready"
    by simp
  note frame = exiftoolWrites_frame[OF wr]
  have "(fs(tmp \<mapsto> content d)) tmp \<noteq> None" by simp
  with frame(2) have there: "ready tmp \<noteq> None" by blast
  then obtain b where b: "ready tmp = Some b" by blast
  note plain = frame(3)
  from assms(9-13) wr b
  have dl: "downloadPhoto e (photoDirectory cfg) True (writeScrapedExif cfg)
              (flatDirectoryStructure cfg) ?w2 = Inr ?w3"
    by (auto simp: downloadPhoto_def moveFile_def emit_def Let_def case_prod_beta)
  from assms(8) have "backupLoop fuel e cfg latestPhoto ?w3 = Some (Inr ?w3)"
    by (simp add: backupLoop_at_latest)
  with assms(1-7) dl
  have run: "start fuel e cfg fs =
           Some (Finished,
                 \<lparr>files = (ready(tmp := None))(dest \<mapsto> the (ready tmp)),
                  trace = [Launch, Goto mainGooglePhotosUrl, Goto (clean lastDone), Downloaded u]
                          @ evs @ [Moved tmp dest, BrowserClose, ExiftoolEnd],
                  location = u\<rparr>)"
    by (simp add: start_def loadOrSeed_def getProgress_def emit_def cleanup_def Let_def)
  from assms(12) have quiet: "downloads evs = []" "clicks evs = []" "saves evs = []"
    by (simp_all add: captureDate_quiet)
  from run quiet have "downloads (run_trace (start fuel e cfg fs)) = [u]
       \<and> clicks (run_trace (start fuel e cfg fs)) = []
       \<and> saves (run_trace (start fuel e cfg fs)) = []"
    by (simp add: run_trace_def)
  with there run plain show ?thesis by blast
qed

theorem unchanged_checkpoint_downloads_once_witness:
  "rerun_files (lastdone demo_env (photoDirectory scraping_config)) = Some photoC
   \<and> photoC \<noteq> [] \<and> url_valid demo_env photoC
   \<and> landing demo_env mainGooglePhotosUrl = mainGooglePhotosUrl
   \<and> active_href demo_env = Some photoC_u0 \<and> photoC_u0 \<noteq> []
   \<and> photoC = landing demo_env (clean photoC)
   \<and> clean photoC = clean photoC_u0
   \<and> tempPath (download demo_env photoC) = Some (js ''/tmp/c'') \<and> js ''/tmp/c'' \<noteq> []
   \<and> rerun_files (js ''/p/2020/1/IMG_2.jpg'') = Some (js ''old'')
   \<and> (\<exists>ready.
        exiftoolWrites demo_env
          [HtmlGet photoC, ExifWrite (js ''/tmp/c'') (LocalDate 2020 0)]
          (rerun_files(js ''/tmp/c'' \<mapsto> content (download demo_env photoC))) = Inr ready
        \<and> ready (js ''/tmp/c'') = Some (js ''ccc+date'')
        \<and> start 0 demo_env scraping_config rerun_files =
            Some (Finished,
                  \<lparr>files = (ready(js ''/tmp/c'' := None))
                             (js ''/p/2020/1/IMG_2.jpg'' \<mapsto> js ''ccc+date''),
                   trace = [Launch, Goto mainGooglePhotosUrl, Goto photoC, Downloaded photoC,
                            HtmlGet photoC, ExifWrite (js ''/tmp/c'') (LocalDate 2020 0),
                            Moved (js ''/tmp/c'') (js ''/p/2020/1/IMG_2.jpg''),
                            BrowserClose, ExiftoolEnd],
                   location = photoC\<rparr>))"
proof -
  have l0: "landing demo_env v = v" for v by (simp add: demo_env_def)
  have h1: "rerun_files (lastdone demo_env (photoDirectory scraping_config)) = Some photoC"
    by (simp add: rerun_files_def lastdone_def demo_env_def scraping_config_def demo_config_def)
  have h2: "photoC \<noteq> []" by (simp add: distinct_photos)
  have h3: "url_valid demo_env photoC" by (simp add: demo_env_def)
  have h4: "landing demo_env mainGooglePhotosUrl = mainGooglePhotosUrl" by (simp add: l0)
  have h5: "active_href demo_env = Some photoC_u0" by (simp add: demo_env_def)
  have h6: "photoC_u0 \<noteq> []" by (simp add: distinct_photos)
  have h7: "photoC = landing demo_env (clean photoC)" by (simp add: l0 clean_photos)
  have h8: "clean photoC = clean photoC_u0" by (simp add: clean_photos)
  have h10: "tempPath (download demo_env photoC) = Some (js ''/tmp/c'')"
    by (simp add: demo_env_def demo_download_def distinct_photos)
  have h11: "js ''/tmp/c'' \<noteq> []" by simp
  have cd: "captureDate demo_env photoC (js ''/tmp/c'') (writeScrapedExif scraping_config)
              (dateTimeOriginal (download demo_env photoC)) =
            ((Num 2020, Num 1), [HtmlGet photoC, ExifWrite (js ''/tmp/c'') (LocalDate 2020 0)])"
    by (simp add: demo_simps)
  have h12: "[HtmlGet photoC, ExifWrite (js ''/tmp/c'') (LocalDate 2020 0)] =
      snd (captureDate demo_env photoC (js ''/tmp/c'') (writeScrapedExif scraping_config)
              (dateTimeOriginal (download demo_env photoC)))"
    by (subst cd) simp
  have h13: "js ''/p/2020/1/IMG_2.jpg'' =
      destDir demo_env (photoDirectory scraping_config) (flatDirectoryStructure scraping_config)
        (fst (captureDate demo_env photoC (js ''/tmp/c'') (writeScrapedExif scraping_config)
              (dateTimeOriginal (download demo_env photoC))))
        (suggestedFilename (download demo_env photoC))"
    by (subst cd) (simp add: demo_simps)
  have old: "rerun_files (js ''/p/2020/1/IMG_2.jpg'') = Some (js ''old'')"
    by (simp add: rerun_files_def)
  have "\<exists>ready. exiftoolWrites demo_env
          [HtmlGet photoC, ExifWrite (js ''/tmp/c'') (LocalDate 2020 0)]
          (rerun_files(js ''/tmp/c'' \<mapsto> content (download demo_env photoC))) = Inr ready
        \<and> ready (js ''/tmp/c'') = Some (js ''ccc+date'')"
    by (simp add: demo_simps)
  then obtain ready where h14: "exiftoolWrites demo_env
          [HtmlGet photoC, ExifWrite (js ''/tmp/c'') (LocalDate 2020 0)]
          (rerun_files(js ''/tmp/c'' \<mapsto> content (download demo_env photoC))) = Inr ready"
    and r: "ready (js ''/tmp/c'') = Some (js ''ccc+date'')"
    by blast
  from unchanged_checkpoint_downloads_once[of rerun_files demo_env scraping_config photoC
      photoC_u0 photoC "download demo_env photoC" "js ''/tmp/c''"
      "[HtmlGet photoC, ExifWrite (js ''/tmp/c'') (LocalDate 2020 0)]"
      "js ''/p/2020/1/IMG_2.jpg''" ready 0,
      OF h1 h2 h3 h4 h5 h6 h7 h8 refl h10 h11 h12 h13 h14] r
  have "start 0 demo_env scraping_config rerun_files =
            Some (Finished,
                  \<lparr>files = (ready(js ''/tmp/c'' := None))
                             (js ''/p/2020/1/IMG_2.jpg'' \<mapsto> js ''ccc+date''),
                   trace = [Launch, Goto mainGooglePhotosUrl, Goto photoC, Downloaded photoC,
                            HtmlGet photoC, ExifWrite (js ''/tmp/c'') (LocalDate 2020 0),
                            Moved (js ''/tmp/c'') (js ''/p/2020/1/IMG_2.jpg''),
                            BrowserClose, ExiftoolEnd],
                   location = photoC\<rparr>)"
    by (simp add: clean_photos)
  with h1 h2 h3 h4 h5 h6 h7 h8 h10 h11 old h14 r show ?thesis by blast
qed

text \<open>
  C3, as stated, fails: with the checkpoint at the latest photo the run downloads it
  once more before the loop looks at the location.
\<close>

theorem unchanged_checkpoint_still_downloads:
  "run_trace (start 0 demo_env demo_config (checkpointed photoC)) =
     [Launch, Goto mainGooglePhotosUrl, Goto photoC, Downloaded photoC, HtmlGet photoC,
      Moved (js ''/tmp/c'') (js ''/p/2020/1/IMG_2.jpg''), BrowserClose, ExiftoolEnd]
   \<and> downloads (run_trace (start 0 demo_env demo_config (checkpointed photoC))) \<noteq> []"
proof -
  have t: "run_trace (start 0 demo_env demo_config (checkpointed photoC)) =
     [Launch, Goto mainGooglePhotosUrl, Goto photoC, Downloaded photoC, HtmlGet photoC,
      Moved (js ''/tmp/c'') (js ''/p/2020/1/IMG_2.jpg''), BrowserClose, ExiftoolEnd]"
    by (simp add: demo_simps)
  show ?thesis unfolding t by simp
qed

section \<open>The flat directory option\<close>

lemma destDir_flat: "destDir e photoDir True ym name = path_join e [photoDir, name]"
  by (simp add: destDir_def)

lemma destDir_nested:
  "destDir e photoDir False (y, m) name = path_join e [photoDir, template y, template m, name]"
  by (simp add: destDir_def)

text \<open>
  C4 at a failing input: with the flat option set, the first photo goes to
  \<open>/p/IMG_1.jpg\<close>, the photos of the loop go under year and month.
\<close>

theorem flat_mode_nests_later_photos:
  "run_trace (start 5 demo_env (demo_config\<lparr>flatDirectoryStructure := True\<rparr>) (checkpointed photoA)) =
     [Launch, Goto mainGooglePhotosUrl, Goto photoA, Downloaded photoA,
      Moved (js ''/tmp/a'') (js ''/p/IMG_1.jpg''),
      Click photoA 0, Downloaded photoB,
      Moved (js ''/tmp/b'') (js ''/p/2021/3/IMG_1.jpg''), Saved photoB,
      Click photoB 0, Downloaded photoC, HtmlGet photoC,
      Moved (js ''/tmp/c'') (js ''/p/2020/1/IMG_2.jpg''), Saved photoC,
      BrowserClose, ExiftoolEnd]"
  by (simp add: demo_simps)

section \<open>Exits and cleanup\<close>

lemma redirect_exit_cleans_up:
  assumes "loadOrSeed e cfg \<lparr>files = fs, trace = [], location = []\<rparr> = Inr (startLink, w0)"
    and "url_valid e startLink"
    and "landing e mainGooglePhotosUrl \<noteq> mainGooglePhotosUrl \<or> \<not> truthy (active_href e)"
  shows "start fuel e cfg fs =
     Some (ProcessExit 1,
           emit [Launch, Goto mainGooglePhotosUrl, BrowserClose, ExiftoolEnd]
             (w0\<lparr>location := landing e mainGooglePhotosUrl\<rparr>))"
  using assms by (auto simp: start_def cleanup_def emit_def Let_def)

text \<open>
  A scraped date that is no date: the metadata write throws, and the run ends there,
  with no move and no cleanup.
\<close>

lemma scraped_write_of_bad_caption_ends_run:
  "run_halt (start 0 bad_caption_env scraping_config (checkpointed photoC)) =
     Some (Unhandled ExifWriteFailed)
   \<and> run_trace (start 0 bad_caption_env scraping_config (checkpointed photoC)) =
       [Launch, Goto mainGooglePhotosUrl, Goto photoC, Downloaded photoC, HtmlGet photoC,
        ExifWrite (js ''/tmp/c'') InvalidDate]"
  by (simp add: demo_simps match_here_def kind_def segments_def is_dash_def is_text_def)

text \<open>
  C5 at two failing inputs: no visible arrow on the page of A, and a download with no
  path. Both runs end with exit code 1 and a trace without \<open>BrowserClose\<close> and
  \<open>ExiftoolEnd\<close>, unlike the redirect and latest-photo exits above.
\<close>

theorem exits_without_cleanup:
  "run_halt (start 5 no_arrow_env demo_config (checkpointed photoA)) = Some (ProcessExit 1)
   \<and> run_trace (start 5 no_arrow_env demo_config (checkpointed photoA)) =
       [Launch, Goto mainGooglePhotosUrl, Goto photoA, Downloaded photoA,
        Moved (js ''/tmp/a'') (js ''/p/2021/3/IMG_1.jpg'')]
   \<and> run_halt (start 5 no_path_env demo_config (checkpointed photoA)) = Some (ProcessExit 1)
   \<and> run_trace (start 5 no_path_env demo_config (checkpointed photoA)) =
       [Launch, Goto mainGooglePhotosUrl, Goto photoA, Downloaded photoA]"
  by (simp add: demo_simps)

section \<open>The previous-photo control\<close>

lemma advanceToPrevious_false_iff:
  "advanceToPrevious elements = None \<longleftrightarrow> \<not> list_ex (\<lambda>visible. visible) elements"
  by (simp add: advanceToPrevious_def)

lemma advanceToPrevious_first:
  "advanceToPrevious elements = Some i \<Longrightarrow> i = 0 \<and> elements \<noteq> []"
  by (auto simp: advanceToPrevious_def split: if_splits)

text \<open>
  C7 at a failing input: of two elements the first is hidden and the second visible;
  the script returns true and the element it clicks is the first, the hidden one.
\<close>

theorem clicks_first_arrow_though_hidden:
  "advanceToPrevious [False, True] = Some 0 \<and> [False, True] ! 0 = False"
  by (simp add: advanceToPrevious_def)

section \<open>Date resolution\<close>

lemma regex_exec_skip:
  "unmatched_prefix pre rest \<Longrightarrow> regex_exec (pre @ rest) = regex_exec rest"
  by (induction pre) simp_all

lemma match_here_captionJan:
  "match_here (captionJan @ post) = Some (js ''Jan 5, 2020'')"
  by (simp add: captionJan_def match_here_def kind_def segments_def is_dash_def is_text_def)

lemma regex_exec_captionJan:
  "regex_exec (captionJan @ post) = Some (js ''Jan 5, 2020'')"
proof -
  have "captionJan @ post = 97 # tl (captionJan @ post)"
    by (simp add: captionJan_def)
  then have "regex_exec (captionJan @ post) =
      (case match_here (captionJan @ post) of Some t \<Rightarrow> Some t
       | None \<Rightarrow> regex_exec (tl (captionJan @ post)))"
    by (metis regex_exec.simps(2))
  then show ?thesis by (simp add: match_here_captionJan)
qed

text \<open>
  C6, as the code has it. A metadata date other than (1970, 1) is the result, with no
  fetch of the markup. With metadata date (1970, 1): no match of the pattern gives
  (1970, 1); and when the caption \<open>aria-label="Photo - Jan 5, 2020"\<close> is the leftmost
  match of the pattern and \<open>new Date\<close> reads its text as January 2020, the result is
  (2020, 1).
\<close>

theorem date_resolution:
  "(metadataDate dto \<noteq> (Num 1970, Num 1) \<longrightarrow>
      captureDate e url tmp wx dto = (metadataDate dto, []))
   \<and> (metadataDate dto = (Num 1970, Num 1) \<and> regex_exec (page_html e url) = None \<longrightarrow>
      fst (captureDate e url tmp wx dto) = (Num 1970, Num 1))
   \<and> (metadataDate dto = (Num 1970, Num 1) \<and> page_html e url = pre @ captionJan @ post
       \<and> unmatched_prefix pre (captionJan @ post)
       \<and> parse_date e (js ''Jan 5, 2020'') = LocalDate 2020 0 \<longrightarrow>
      fst (captureDate e url tmp wx dto) = (Num 2020, Num 1))"
proof (intro conjI impI)
  assume "metadataDate dto \<noteq> (Num 1970, Num 1)"
  then show "captureDate e url tmp wx dto = (metadataDate dto, [])"
    by (cases "metadataDate dto") (auto simp: captureDate_def)
next
  assume "metadataDate dto = (Num 1970, Num 1) \<and> regex_exec (page_html e url) = None"
  then show "fst (captureDate e url tmp wx dto) = (Num 1970, Num 1)"
    by (simp add: captureDate_def)
next
  assume a: "metadataDate dto = (Num 1970, Num 1) \<and> page_html e url = pre @ captionJan @ post
       \<and> unmatched_prefix pre (captionJan @ post)
       \<and> parse_date e (js ''Jan 5, 2020'') = LocalDate 2020 0"
  then have "regex_exec (page_html e url) = Some (js ''Jan 5, 2020'')"
    by (simp add: regex_exec_skip regex_exec_captionJan)
  with a show "fst (captureDate e url tmp wx dto) = (Num 2020, Num 1)"
    by (simp add: captureDate_def)
qed

theorem date_resolution_witness:
  "metadataDate march2021 \<noteq> (Num 1970, Num 1)
   \<and> captureDate demo_env photoA (js ''/tmp/a'') False march2021 = ((Num 2021, Num 3), [])
   \<and> metadataDate None = (Num 1970, Num 1)
   \<and> regex_exec (page_html demo_env photoA) = None
   \<and> fst (captureDate demo_env photoA (js ''/tmp/a'') False None) = (Num 1970, Num 1)
   \<and> page_html demo_env photoC = js ''<a '' @ captionJan @ js ''>''
   \<and> unmatched_prefix (js ''<a '') (captionJan @ js ''>'')
   \<and> parse_date demo_env (js ''Jan 5, 2020'') = LocalDate 2020 0
   \<and> fst (captureDate demo_env photoC (js ''/tmp/c'') False None) = (Num 2020, Num 1)"
proof -
  have m: "metadataDate march2021 = (Num 2021, Num 3)" "metadataDate None = (Num 1970, Num 1)"
    by (simp_all add: metadataDate_def march2021_def)
  have h1: "metadataDate march2021 \<noteq> (Num 1970, Num 1)" by (simp add: m)
  have h2: "regex_exec (page_html demo_env photoA) = None"
    by (simp add: demo_env_def distinct_photos)
  have h3: "page_html demo_env photoC = js ''<a '' @ captionJan @ js ''>''"
    by (simp add: demo_env_def captionC_def captionJan_def)
  have h4: "unmatched_prefix (js ''<a '') (captionJan @ js ''>'')"
    by (simp add: captionJan_def match_here_def)
  have h5: "parse_date demo_env (js ''Jan 5, 2020'') = LocalDate 2020 0"
    by (simp add: demo_env_def demo_parse_def)
  from date_resolution[of march2021 demo_env photoA "js ''/tmp/a''" False] h1 m
  have c1: "captureDate demo_env photoA (js ''/tmp/a'') False march2021 = ((Num 2021, Num 3), [])"
    by simp
  from date_resolution[of None demo_env photoA "js ''/tmp/a''" False] h2 m
  have c2: "fst (captureDate demo_env photoA (js ''/tmp/a'') False None) = (Num 1970, Num 1)"
    by simp
  from date_resolution[of None demo_env photoC "js ''/tmp/c''" False "js ''<a ''" "js ''>''"]
    h3 h4 h5 m
  have c3: "fst (captureDate demo_env photoC (js ''/tmp/c'') False None) = (Num 2020, Num 1)"
    by blast
  from h1 c1 m(2) h2 c2 h3 h4 h5 c3 show ?thesis by blast
qed

text \<open>
  C6, as stated, fails: the markup contains the caption of Jan 5, 2020 after a caption of
  Feb 7, 2019, and the resolved date is (2019, 2).
\<close>

theorem earlier_caption_wins:
  "metadataDate None = (Num 1970, Num 1)
   \<and> page_html two_caption_env photoC =
       js ''<a aria-label=\"Video - Feb 7, 2019\"><a '' @ captionJan @ js ''>''
   \<and> fst (captureDate two_caption_env photoC (js ''/tmp/c'') False None) = (Num 2019, Num 2)"
proof -
  have r: "regex_exec captionTwo = Some (js ''Feb 7, 2019'')"
    by (simp add: captionTwo_def captionJan_def match_here_def kind_def segments_def
        is_dash_def is_text_def)
  have p: "page_html two_caption_env photoC =
       js ''<a aria-label=\"Video - Feb 7, 2019\"><a '' @ captionJan @ js ''>''"
    by (simp add: two_caption_env_def captionTwo_def)
  have c: "fst (captureDate two_caption_env photoC (js ''/tmp/c'') False None) = (Num 2019, Num 2)"
    by (simp add: captureDate_def metadataDate_def two_caption_env_def demo_env_def
        demo_parse_def r)
  have m: "metadataDate None = (Num 1970, Num 1)"
    by (simp add: metadataDate_def)
  from m p c show ?thesis by blast
qed

section \<open>Loading and seeding the checkpoint\<close>




section \<open>The unknown-date sentinel\<close>

text \<open>
  C10, as the code has it. The markup is fetched exactly when the year field is absent,
  NaN, 0 or 1970 and the month field is absent, NaN, 0 or 1 (or the date is absent as a
  whole): that is the case for missing metadata and for a date in January 1970 alike.
  A year other than 0 and 1970 with no month gives (year, 1) and no fetch; a year and a
  month other than 0 that are not January 1970 give (year, month) and no fetch.
\<close>

theorem sentinel_conflation:
  "HtmlGet url \<in> set (snd (captureDate e url tmp wx None))
   \<and> (HtmlGet url \<in> set (snd (captureDate e url tmp wx (Some (ExifDateTime yv mv)))) \<longleftrightarrow>
        (yv = None \<or> yv = Some NaN \<or> yv = Some (Num 0) \<or> yv = Some (Num 1970))
        \<and> (mv = None \<or> mv = Some NaN \<or> mv = Some (Num 0) \<or> mv = Some (Num 1)))
   \<and> (y \<noteq> 0 \<and> y \<noteq> 1970 \<longrightarrow>
        captureDate e url tmp wx (Some (ExifDateTime (Some (Num y)) None)) = ((Num y, Num 1), []))
   \<and> (y \<noteq> 0 \<and> m \<noteq> 0 \<and> \<not> (y = 1970 \<and> m = 1) \<longrightarrow>
        captureDate e url tmp wx (Some (ExifDateTime (Some (Num y)) (Some (Num m)))) =
          ((Num y, Num m), []))"
proof (intro conjI impI)
  show "HtmlGet url \<in> set (snd (captureDate e url tmp wx None))"
    by (simp add: captureDate_def metadataDate_def Let_def split: option.splits)
next
  have year: "or_default yv 1970 = Num 1970 \<longleftrightarrow>
      yv = None \<or> yv = Some NaN \<or> yv = Some (Num 0) \<or> yv = Some (Num 1970)"
    by (cases "(yv, 1970::int)" rule: or_default.cases) auto
  have month: "or_default mv 1 = Num 1 \<longleftrightarrow>
      mv = None \<or> mv = Some NaN \<or> mv = Some (Num 0) \<or> mv = Some (Num 1)"
    by (cases "(mv, 1::int)" rule: or_default.cases) auto
  have "HtmlGet url \<in> set (snd (captureDate e url tmp wx (Some (ExifDateTime yv mv)))) \<longleftrightarrow>
      or_default yv 1970 = Num 1970 \<and> or_default mv 1 = Num 1"
    by (simp add: captureDate_def metadataDate_def Let_def split: option.splits)
  then show "HtmlGet url \<in> set (snd (captureDate e url tmp wx (Some (ExifDateTime yv mv)))) \<longleftrightarrow>
        (yv = None \<or> yv = Some NaN \<or> yv = Some (Num 0) \<or> yv = Some (Num 1970))
        \<and> (mv = None \<or> mv = Some NaN \<or> mv = Some (Num 0) \<or> mv = Some (Num 1))"
    by (simp only: year month)
next
  assume "y \<noteq> 0 \<and> y \<noteq> 1970"
  then show "captureDate e url tmp wx (Some (ExifDateTime (Some (Num y)) None)) = ((Num y, Num 1), [])"
    by (simp add: captureDate_def metadataDate_def)
next
  assume "y \<noteq> 0 \<and> m \<noteq> 0 \<and> \<not> (y = 1970 \<and> m = 1)"
  then show "captureDate e url tmp wx (Some (ExifDateTime (Some (Num y)) (Some (Num m)))) =
          ((Num y, Num m), [])"
    by (auto simp: captureDate_def metadataDate_def)
qed

theorem sentinel_conflation_witness:
  "(2021::int) \<noteq> 0 \<and> (2021::int) \<noteq> 1970
   \<and> captureDate demo_env photoA (js ''/tmp/a'') False (Some (ExifDateTime (Some (Num 2021)) None))
       = ((Num 2021, Num 1), [])
   \<and> HtmlGet photoA \<in> set (snd (captureDate demo_env photoA (js ''/tmp/a'') False
         (Some (ExifDateTime (Some (Num 1970)) (Some (Num 1))))))
   \<and> HtmlGet photoA \<notin> set (snd (captureDate demo_env photoA (js ''/tmp/a'') False
         (Some (ExifDateTime (Some (Num 1970)) (Some (Num 5))))))
   \<and> (1970::int) \<noteq> 0 \<and> (5::int) \<noteq> 0 \<and> \<not> ((1970::int) = 1970 \<and> (5::int) = 1)
   \<and> captureDate demo_env photoA (js ''/tmp/a'') False
         (Some (ExifDateTime (Some (Num 1970)) (Some (Num 5)))) = ((Num 1970, Num 5), [])"
  using sentinel_conflation[of photoA demo_env "js ''/tmp/a''" False "Some (Num 1970)"
      "Some (Num 1)" 2021 5]
    sentinel_conflation[of photoA demo_env "js ''/tmp/a''" False "Some (Num 1970)"
      "Some (Num 5)" 1970 5]
  by simp

text \<open>
  C10, as stated, fails at a year the default replaces: year 0 is no 1970, yet with no
  month the markup is fetched, and with no caption there the date is (1970, 1), not
  (0, 1).
\<close>

theorem year_zero_falls_back:
  "(0::int) \<noteq> 1970
   \<and> captureDate demo_env photoA (js ''/tmp/a'') False (Some (ExifDateTime (Some (Num 0)) None))
       = ((Num 1970, Num 1), [HtmlGet photoA])"
  by (simp add: captureDate_def metadataDate_def demo_env_def distinct_photos)

end
